theory Spec2Isabelle
  imports Complex_Main "HOL-Library.Word"
begin

unbundle bit_operations_syntax

section \<open>Numbers and strings of the host language\<close>

text \<open>
  The colour utilities of \<^verbatim>\<open>src/utils/colorExtractor.ts\<close> work on numbers and strings.
  Channel values, parsed colours and brightness percentages are integer-valued numbers and
  are modelled as \<^typ>\<open>int\<close>; a number that may be NaN (the result of \<^verbatim>\<open>parseInt\<close>) is an
  \<^typ>\<open>int option\<close> with \<open>None\<close> for NaN. Luminance and saturation are quotients of small
  integers and are modelled exactly, as \<^typ>\<open>rat\<close>: the quotients the code forms from
  channels in \<open>0..255\<close> differ by far more than the precision of a double whenever they
  differ at all, so the order the code observes on distinct values is the exact one.
  Only exact ties of luminance may be ordered differently by the doubles of the code; no
  statement below depends on how such a tie is ordered.
\<close>

subsection \<open>\<^verbatim>\<open>Number.prototype.toString(16)\<close> on integers\<close>

definition hexDigit :: "nat \<Rightarrow> char" where
  "hexDigit d = (if d < 10 then char_of (48 + d) else char_of (87 + d))"

fun toDigits16 :: "nat \<Rightarrow> string" where
  "toDigits16 n = (if n < 16 then [hexDigit n] else toDigits16 (n div 16) @ [hexDigit (n mod 16)])"

declare toDigits16.simps [simp del]

definition toString16 :: "int \<Rightarrow> string" where
  "toString16 x = (if x < 0 then CHR ''-'' # toDigits16 (nat (- x)) else toDigits16 (nat x))"

subsection \<open>\<^verbatim>\<open>parseInt(s, 16)\<close>\<close>

text \<open>
  \<^verbatim>\<open>parseInt\<close> with radix 16 skips leading white space, reads an optional sign and an
  optional \<^verbatim>\<open>0x\<close> prefix, and takes the longest run of hex digits of either case; with no
  digit the result is NaN. Strings are byte strings here, so the white space is the
  ASCII one. The value is exact, as the code's is up to \<open>2 ^ 53\<close>; the colours of this
  program have six digits.
\<close>

definition isWhiteSpace :: "char \<Rightarrow> bool" where
  "isWhiteSpace c = (of_char c \<in> set [9, 10, 11, 12, 13, 32 :: nat])"

definition digitValue :: "char \<Rightarrow> nat option" where
  "digitValue c =
     (let n = of_char c :: nat in
      if 48 \<le> n \<and> n \<le> 57 then Some (n - 48)
      else if 97 \<le> n \<and> n \<le> 102 then Some (n - 87)
      else if 65 \<le> n \<and> n \<le> 70 then Some (n - 55)
      else None)"

definition isDigit16 :: "char \<Rightarrow> bool" where
  "isDigit16 c = (digitValue c \<noteq> None)"

definition stripSign :: "string \<Rightarrow> int \<times> string" where
  "stripSign s =
     (case s of
        [] \<Rightarrow> (1, s)
      | c # rest \<Rightarrow>
          if c = CHR ''-'' then (- 1, rest)
          else if c = CHR ''+'' then (1, rest)
          else (1, s))"

definition stripPrefix0x :: "string \<Rightarrow> string" where
  "stripPrefix0x s =
     (case s of
        a # b # rest \<Rightarrow>
          if a = CHR ''0'' \<and> (b = CHR ''x'' \<or> b = CHR ''X'') then rest else s
      | _ \<Rightarrow> s)"

definition digitsValue :: "string \<Rightarrow> nat" where
  "digitsValue z = foldl (\<lambda>acc c. 16 * acc + (case digitValue c of Some d \<Rightarrow> d | None \<Rightarrow> 0)) 0 z"

definition parseInt16 :: "string \<Rightarrow> int option" where
  "parseInt16 str =
     (let s = dropWhile isWhiteSpace str;
          (sign, s1) = stripSign s;
          s2 = stripPrefix0x s1;
          z = takeWhile isDigit16 s2
      in if z = [] then None else Some (sign * int (digitsValue z)))"

subsection \<open>Bitwise operators\<close>

text \<open>
  \<^verbatim>\<open>>>\<close> and \<^verbatim>\<open>&\<close> first convert their operands to signed 32-bit integers (NaN becomes 0),
  then shift arithmetically or combine bitwise.
\<close>

definition toInt32 :: "int option \<Rightarrow> int" where
  "toInt32 v = (case v of None \<Rightarrow> 0 | Some n \<Rightarrow> (n + 2 ^ 31) mod 2 ^ 32 - 2 ^ 31)"

definition sar :: "int option \<Rightarrow> nat \<Rightarrow> int" where
  "sar v k = drop_bit (k mod 32) (toInt32 v)"

definition band :: "int option \<Rightarrow> int \<Rightarrow> int" where
  "band v m = toInt32 v AND toInt32 (Some m)"

subsection \<open>\<^verbatim>\<open>Math.round(2.55 * percent)\<close>\<close>

text \<open>
  \<^verbatim>\<open>Math.round\<close> rounds to the nearest integer, a half towards \<open>+\<infinity>\<close>. The product is
  taken exactly. What is proved for every percent below holds for every integer shift.
\<close>

definition mathRound :: "rat \<Rightarrow> int" where
  "mathRound x = \<lfloor>x + 1 / 2\<rfloor>"

section \<open>Colour utilities\<close>

definition hexPad :: "int \<Rightarrow> string" where
  "hexPad x = (let hex = toString16 x in if length hex = 1 then CHR ''0'' # hex else hex)"

definition rgbToHex :: "int \<Rightarrow> int \<Rightarrow> int \<Rightarrow> string" where
  "rgbToHex r g b = CHR ''#'' # concat (map hexPad [r, g, b])"

definition replaceHash :: "string \<Rightarrow> string" where
  "replaceHash hex = remove1 (CHR ''#'') hex"

definition adjustBrightness :: "string \<Rightarrow> int \<Rightarrow> string" where
  "adjustBrightness hex percent =
     (let num = parseInt16 (replaceHash hex);
          amt = mathRound (255 / 100 * of_int percent);
          R = min 255 (max 0 (sar num 16 + amt));
          G = min 255 (max 0 (band (Some (sar num 8)) 255 + amt));
          B = min 255 (max 0 (band num 255 + amt))
      in rgbToHex R G B)"

text \<open>
  \<^verbatim>\<open>getLuminance\<close> and the callback of \<^verbatim>\<open>getMostVibrant\<close> read the channels of a colour
  with the same four lines; \<open>parseChannels\<close> is that shared prefix.
\<close>

definition parseChannels :: "string \<Rightarrow> int \<times> int \<times> int" where
  "parseChannels hex =
     (let rgb = parseInt16 (replaceHash hex);
          r = band (Some (sar rgb 16)) 255;
          g = band (Some (sar rgb 8)) 255;
          b = band (Some (sar rgb 0)) 255
      in (r, g, b))"

definition getLuminance :: "string \<Rightarrow> rat" where
  "getLuminance hex =
     (case parseChannels hex of
        (r, g, b) \<Rightarrow> (299 / 1000 * of_int r + 587 / 1000 * of_int g + 114 / 1000 * of_int b) / 255)"

definition saturation :: "string \<Rightarrow> rat" where
  "saturation hex =
     (case parseChannels hex of
        (r, g, b) \<Rightarrow>
          let mx = max (max r g) b;
              mn = min (min r g) b
          in if mx = 0 then 0 else of_int (mx - mn) / of_int mx)"

section \<open>Palette derivation\<close>

record ColorPalette =
  primary :: string
  secondary :: string
  accent :: string
  dark :: string
  light :: string

text \<open>
  The two rejections of \<^verbatim>\<open>extractColors\<close>: \<^verbatim>\<open>Could not extract enough colors\<close> (the
  specification's \<^verbatim>\<open>InsufficientSamples\<close>) and \<^verbatim>\<open>Failed to load image\<close> (its
  \<^verbatim>\<open>ImageLoadFailure\<close>).
\<close>

datatype extract_error = NotEnoughColors | FailedToLoadImage

text \<open>
  The body of the \<^verbatim>\<open>forEach\<close> in \<^verbatim>\<open>getMostVibrant\<close>, on the pair
  \<open>(maxSaturation, vibrant)\<close> of the two variables it updates.
\<close>

definition vibrantStep :: "rat \<times> string \<Rightarrow> string \<Rightarrow> rat \<times> string" where
  "vibrantStep st hex =
     (if saturation hex > fst st then (saturation hex, hex) else st)"

text \<open>
  \<^verbatim>\<open>colors[0]\<close> of an empty array is \<^verbatim>\<open>undefined\<close>; the only call passes at least three
  colours, and every statement about \<open>getMostVibrant\<close> assumes a non-empty list.
\<close>

definition getMostVibrant :: "string list \<Rightarrow> string" where
  "getMostVibrant colors = snd (foldl vibrantStep (0, colors ! 0) colors)"

text \<open>
  \<^verbatim>\<open>hexColors[1] || adjustBrightness(primary, 20)\<close>: the right operand is taken when the
  left one is \<^verbatim>\<open>undefined\<close> (index out of range) or the empty string.
\<close>

definition secondaryFallback :: "string list \<Rightarrow> bool" where
  "secondaryFallback hexColors = (\<not> 1 < length hexColors \<or> hexColors ! 1 = [])"

text \<open>The sampler's triples in hex form: \<^verbatim>\<open>palette.map(([r, g, b]) => rgbToHex(r, g, b))\<close>.\<close>

definition hexColorsOf :: "(int \<times> int \<times> int) list \<Rightarrow> string list" where
  "hexColorsOf pal = map (\<lambda>(r, g, b). rgbToHex r g b) pal"

definition secondaryOf :: "string list \<Rightarrow> string \<Rightarrow> string" where
  "secondaryOf hexColors primaryColor =
     (if secondaryFallback hexColors then adjustBrightness primaryColor 20 else hexColors ! 1)"

text \<open>
  The \<^verbatim>\<open>onload\<close> handler of \<^verbatim>\<open>extractColors\<close>, from the palette the sampler returned
  (\<open>None\<close> for \<^verbatim>\<open>null\<close>) to the promise's outcome: \<open>Inl\<close> is a rejection, \<open>Inr\<close> the
  resolved palette. After the guard the lists hold at least three colours, so the reads at
  index 0 and at the last index are in range.
\<close>

definition derive :: "(int \<times> int \<times> int) list option \<Rightarrow> extract_error + ColorPalette" where
  "derive palette =
     (case palette of
        None \<Rightarrow> Inl NotEnoughColors
      | Some pal \<Rightarrow>
          if length pal < 3 then Inl NotEnoughColors
          else
            let hexColors = hexColorsOf pal;
                sortedByLuminance = sort_key getLuminance hexColors;
                primary = hexColors ! 0;
                secondary = secondaryOf hexColors primary;
                accent = getMostVibrant hexColors;
                dark = adjustBrightness (sortedByLuminance ! 0) (- 30);
                light = sortedByLuminance ! (length sortedByLuminance - 1)
            in Inr \<lparr>primary = primary, secondary = secondary, accent = accent,
                    dark = dark, light = light\<rparr>)"

text \<open>The promise of \<^verbatim>\<open>extractColors\<close>: the image fails to load, or \<^verbatim>\<open>onload\<close> runs.\<close>

datatype image_load = LoadError | Loaded "(int \<times> int \<times> int) list option"

definition extractColors :: "image_load \<Rightarrow> extract_error + ColorPalette" where
  "extractColors img =
     (case img of LoadError \<Rightarrow> Inl FailedToLoadImage | Loaded palette \<Rightarrow> derive palette)"

section \<open>Well-formed colours\<close>

definition validChannel :: "int \<Rightarrow> bool" where
  "validChannel x = (0 \<le> x \<and> x \<le> 255)"

definition validSample :: "int \<times> int \<times> int \<Rightarrow> bool" where
  "validSample s = (case s of (r, g, b) \<Rightarrow> validChannel r \<and> validChannel g \<and> validChannel b)"

definition isColor :: "string \<Rightarrow> bool" where
  "isColor s =
     (length s = 7 \<and> take 1 s = ''#'' \<and> list_all (\<lambda>c. c \<in> set ''0123456789abcdef'') (drop 1 s))"

section \<open>Encoding and parsing of in-range channels\<close>

lemma char_of_eq_iff_nat: "n < 256 \<Longrightarrow> (char_of (n::nat) = c) \<longleftrightarrow> (of_char c = n)"
  by auto

lemma hexDigit_code: "d < 16 \<Longrightarrow> of_char (hexDigit d) = (if d < 10 then 48 + d else 87 + d)"
  by (simp add: hexDigit_def)

lemma hexDigit_value: "d < 16 \<Longrightarrow> digitValue (hexDigit d) = Some d"
  by (simp add: digitValue_def hexDigit_def Let_def)

lemma hexDigit_isDigit16: "d < 16 \<Longrightarrow> isDigit16 (hexDigit d)"
  by (simp add: isDigit16_def hexDigit_value)

lemma hexDigit_notwhite: "d < 16 \<Longrightarrow> \<not> isWhiteSpace (hexDigit d)"
  by (auto simp add: isWhiteSpace_def hexDigit_code)

lemma hexDigit_neq:
  assumes "d < 16" and "of_char c \<notin> {48..57} \<union> {97..102::nat}"
  shows "hexDigit d \<noteq> c"
proof
  assume "hexDigit d = c"
  then have "of_char c = (if d < 10 then 48 + d else 87 + d)"
    using hexDigit_code [OF assms(1)] by simp
  with assms show False by (auto split: if_splits)
qed

lemma hexDigit_neq_simps:
  assumes "d < 16"
  shows "hexDigit d \<noteq> CHR ''-''" "hexDigit d \<noteq> CHR ''+''" "hexDigit d \<noteq> CHR ''x''"
    "hexDigit d \<noteq> CHR ''X''" "hexDigit d \<noteq> CHR ''#''"
  by (rule hexDigit_neq [OF assms], simp)+

lemma hexDigit_0: "hexDigit 0 = CHR ''0''"
  by (simp add: hexDigit_def char_of_eq_iff_nat)

lemma hexPad_valid:
  assumes "validChannel x"
  shows "hexPad x = [hexDigit (nat x div 16), hexDigit (nat x mod 16)]"
proof -
  have x: "0 \<le> x" "nat x < 256" using assms by (auto simp: validChannel_def)
  show ?thesis
  proof (cases "nat x < 16")
    case True
    then have "toString16 x = [hexDigit (nat x)]"
      using x by (simp add: toString16_def toDigits16.simps)
    with True show ?thesis by (simp add: hexPad_def hexDigit_0)
  next
    case False
    then have "nat x div 16 < 16" using x by simp
    then have "toString16 x = [hexDigit (nat x div 16), hexDigit (nat x mod 16)]"
      using x False
      by (simp add: toString16_def toDigits16.simps [of "nat x"]
          toDigits16.simps [of "nat x div 16"])
    then show ?thesis by (simp add: hexPad_def)
  qed
qed

lemma rgbToHex_valid:
  assumes "validChannel r" "validChannel g" "validChannel b"
  shows "rgbToHex r g b =
    [CHR ''#'', hexDigit (nat r div 16), hexDigit (nat r mod 16),
     hexDigit (nat g div 16), hexDigit (nat g mod 16),
     hexDigit (nat b div 16), hexDigit (nat b mod 16)]"
  using assms by (simp add: rgbToHex_def hexPad_valid)

lemma parseInt16_hex6:
  assumes "a1 < 16" "a2 < 16" "a3 < 16" "a4 < 16" "a5 < 16" "a6 < 16"
  shows "parseInt16 [hexDigit a1, hexDigit a2, hexDigit a3, hexDigit a4, hexDigit a5, hexDigit a6]
    = Some (int (((((a1 * 16 + a2) * 16 + a3) * 16 + a4) * 16 + a5) * 16 + a6))"
  using assms
  by (simp add: parseInt16_def stripSign_def stripPrefix0x_def digitsValue_def
      hexDigit_value hexDigit_isDigit16 hexDigit_notwhite hexDigit_neq_simps Let_def)

lemma and_255: "(x::int) AND 255 = x mod 256"
proof -
  have "x AND mask 8 = take_bit 8 x" by (simp add: take_bit_eq_mask)
  then show ?thesis by (simp add: take_bit_eq_mod mask_eq_exp_minus_1)
qed

lemma toInt32_small: "0 \<le> n \<Longrightarrow> n < 2 ^ 31 \<Longrightarrow> toInt32 (Some n) = n"
  by (simp add: toInt32_def)

lemma parseInt16_rgbToHex:
  assumes "validChannel r" "validChannel g" "validChannel b"
  shows "parseInt16 (replaceHash (rgbToHex r g b)) = Some (r * 65536 + g * 256 + b)"
proof -
  have r: "0 \<le> r" "nat r < 256" and g: "0 \<le> g" "nat g < 256" and b: "0 \<le> b" "nat b < 256"
    using assms by (auto simp: validChannel_def)
  have d: "nat r div 16 < 16" "nat r mod 16 < 16" "nat g div 16 < 16" "nat g mod 16 < 16"
    "nat b div 16 < 16" "nat b mod 16 < 16"
    using r g b by simp_all
  have "int (((((nat r div 16 * 16 + nat r mod 16) * 16 + nat g div 16) * 16 + nat g mod 16) * 16
      + nat b div 16) * 16 + nat b mod 16) = int (nat r * 65536 + nat g * 256 + nat b)"
    by (simp add: algebra_simps)
  also have "\<dots> = r * 65536 + g * 256 + b" using r g b by simp
  finally show ?thesis
    using assms by (simp add: rgbToHex_valid replaceHash_def parseInt16_hex6 [OF d])
qed

lemma sar_small: "0 \<le> n \<Longrightarrow> n < 2 ^ 31 \<Longrightarrow> k < 32 \<Longrightarrow> sar (Some n) k = n div 2 ^ k"
  by (simp add: sar_def toInt32_small drop_bit_eq_div)

lemma band_255: "0 \<le> n \<Longrightarrow> n < 2 ^ 31 \<Longrightarrow> band (Some n) 255 = n mod 256"
  by (simp add: band_def toInt32_small and_255)

lemma div_mod_digit:
  fixes b k q :: int
  assumes "0 \<le> b" "b < k"
  shows "(b + k * q) div k = q" "(b + k * q) mod k = b"
  using assms by simp_all

lemma channels_of_packed:
  fixes r g b :: int
  assumes "validChannel r" "validChannel g" "validChannel b"
  defines "n \<equiv> r * 65536 + g * 256 + b"
  shows "0 \<le> n" "n < 2 ^ 31" "n div 65536 = r" "n div 256 = r * 256 + g"
    "n div 256 mod 256 = g" "n mod 256 = b"
proof -
  have r: "0 \<le> r" "r < 256" and g: "0 \<le> g" "g < 256" and b: "0 \<le> b" "b < 256"
    using assms(1-3) by (auto simp: validChannel_def)
  have n1: "n = b + 256 * (r * 256 + g)" by (simp add: n_def)
  have n2: "n = (b + 256 * g) + 65536 * r" by (simp add: n_def)
  have m: "r * 256 + g = g + 256 * r" by simp
  have bg: "0 \<le> b + 256 * g" "b + 256 * g < 65536" using g b by simp_all
  show "0 \<le> n" using r g b by (simp add: n_def)
  show "n < 2 ^ 31" using r g b by (simp add: n_def)
  show "n div 65536 = r" unfolding n2 by (rule div_mod_digit(1) [OF bg])
  show d: "n div 256 = r * 256 + g" unfolding n1 by (rule div_mod_digit(1) [OF b])
  show "n div 256 mod 256 = g" unfolding d m by (rule div_mod_digit(2) [OF g])
  show "n mod 256 = b" unfolding n1 by (rule div_mod_digit(2) [OF b])
qed

lemma parseChannels_rgbToHex:
  assumes "validChannel r" "validChannel g" "validChannel b"
  shows "parseChannels (rgbToHex r g b) = (r, g, b)"
proof -
  define n where "n = r * 65536 + g * 256 + b"
  have n: "0 \<le> n" "n < 2 ^ 31" "n div 65536 = r" "n div 256 = r * 256 + g"
    "n div 256 mod 256 = g" "n mod 256 = b"
    using channels_of_packed [OF assms] by (simp_all add: n_def)
  have s16: "sar (Some n) 16 = r" using n by (simp add: sar_small)
  have s8: "sar (Some n) 8 = n div 256" using n by (simp add: sar_small)
  have s0: "sar (Some n) 0 = n" using n by (simp add: sar_small)
  have r: "0 \<le> r" "r < 256" using assms by (auto simp: validChannel_def)
  have q: "0 \<le> n div 256" "n div 256 < 2 ^ 31" using n by (auto simp: pos_imp_zdiv_nonneg_iff)
  have "band (Some r) 255 = r" using r by (simp add: band_255)
  moreover have "band (Some (n div 256)) 255 = g" using q n by (simp add: band_255)
  moreover have "band (Some n) 255 = b" using n by (simp add: band_255)
  ultimately show ?thesis
    using assms by (simp add: parseChannels_def parseInt16_rgbToHex n_def [symmetric] s16 s8 s0)
qed

lemma adjustBrightness_rgbToHex:
  assumes "validChannel r" "validChannel g" "validChannel b"
  shows "adjustBrightness (rgbToHex r g b) percent =
    (let amt = mathRound (255 / 100 * of_int percent)
     in rgbToHex (min 255 (max 0 (r + amt))) (min 255 (max 0 (g + amt))) (min 255 (max 0 (b + amt))))"
proof -
  define n where "n = r * 65536 + g * 256 + b"
  have n: "0 \<le> n" "n < 2 ^ 31" "n div 65536 = r" "n div 256 = r * 256 + g"
    "n div 256 mod 256 = g" "n mod 256 = b"
    using channels_of_packed [OF assms] by (simp_all add: n_def)
  have s16: "sar (Some n) 16 = r" using n by (simp add: sar_small)
  have s8: "sar (Some n) 8 = n div 256" using n by (simp add: sar_small)
  have q: "0 \<le> n div 256" "n div 256 < 2 ^ 31" using n by (auto simp: pos_imp_zdiv_nonneg_iff)
  have "band (Some (n div 256)) 255 = g" using q n by (simp add: band_255)
  moreover have "band (Some n) 255 = b" using n by (simp add: band_255)
  ultimately show ?thesis
    using assms by (simp add: adjustBrightness_def parseInt16_rgbToHex n_def [symmetric] s16 s8 Let_def)
qed

lemma validChannel_clamp: "validChannel (min 255 (max 0 x))"
  by (simp add: validChannel_def)

lemma eq_char_of_iff_nat: "n < 256 \<Longrightarrow> (c = char_of (n::nat)) \<longleftrightarrow> (of_char c = n)"
  by auto

lemma hexDigit_in_set: "d < 16 \<Longrightarrow> hexDigit d \<in> set ''0123456789abcdef''"
  by (simp add: hexDigit_def char_of_eq_iff_nat) arith

lemma in_set_hexDigit:
  assumes "c \<in> set ''0123456789abcdef''"
  shows "\<exists>d < 16. c = hexDigit d"
proof -
  let ?d = "if of_char c < (58::nat) then of_char c - 48 else of_char c - (87::nat)"
  from assms have "?d < 16 \<and> c = hexDigit ?d"
    by (auto simp: hexDigit_def eq_char_of_iff_nat)
  then show ?thesis by blast
qed

lemma isColor_rgbToHex:
  assumes "validChannel r" "validChannel g" "validChannel b"
  shows "isColor (rgbToHex r g b)"
proof -
  have "nat r < 256" "nat g < 256" "nat b < 256"
    using assms by (auto simp: validChannel_def)
  then have d: "nat r div 16 < 16" "nat r mod 16 < 16" "nat g div 16 < 16" "nat g mod 16 < 16"
    "nat b div 16 < 16" "nat b mod 16 < 16"
    by simp_all
  show ?thesis
    unfolding isColor_def rgbToHex_valid [OF assms]
    using d [THEN hexDigit_in_set] by simp
qed

lemma two_digits_hexPad:
  assumes "d1 < 16" "d2 < 16"
  shows "validChannel (int (d1 * 16 + d2))"
    and "[hexDigit d1, hexDigit d2] = hexPad (int (d1 * 16 + d2))"
proof -
  show v: "validChannel (int (d1 * 16 + d2))" using assms by (simp add: validChannel_def)
  show "[hexDigit d1, hexDigit d2] = hexPad (int (d1 * 16 + d2))"
  proof -
    have "(d1 * 16 + d2) div 16 = d1" "(d1 * 16 + d2) mod 16 = d2" using assms by simp_all
    then show ?thesis unfolding hexPad_valid [OF v] nat_int by (simp only:)
  qed
qed

lemma isColor_imp_rgbToHex:
  assumes "isColor s"
  shows "\<exists>r g b. validChannel r \<and> validChannel g \<and> validChannel b \<and> s = rgbToHex r g b"
proof -
  from assms obtain c1 c2 c3 c4 c5 c6 where s: "s = [CHR ''#'', c1, c2, c3, c4, c5, c6]"
    and c: "c1 \<in> set ''0123456789abcdef''" "c2 \<in> set ''0123456789abcdef''"
      "c3 \<in> set ''0123456789abcdef''" "c4 \<in> set ''0123456789abcdef''"
      "c5 \<in> set ''0123456789abcdef''" "c6 \<in> set ''0123456789abcdef''"
    unfolding isColor_def
    by (cases s; simp; cases "tl s"; simp; cases "tl (tl s)"; simp; cases "tl (tl (tl s))"; simp;
        cases "tl (tl (tl (tl s)))"; simp; cases "tl (tl (tl (tl (tl s))))"; simp;
        cases "tl (tl (tl (tl (tl (tl s)))))"; simp)
  from c [THEN in_set_hexDigit] obtain d1 d2 d3 d4 d5 d6 where
    d: "d1 < 16" "d2 < 16" "d3 < 16" "d4 < 16" "d5 < 16" "d6 < 16"
    and e: "c1 = hexDigit d1" "c2 = hexDigit d2" "c3 = hexDigit d3" "c4 = hexDigit d4"
      "c5 = hexDigit d5" "c6 = hexDigit d6"
    by blast
  let ?r = "int (d1 * 16 + d2)" and ?g = "int (d3 * 16 + d4)" and ?b = "int (d5 * 16 + d6)"
  have "s = rgbToHex ?r ?g ?b"
    unfolding rgbToHex_def s e
    using two_digits_hexPad(2) [OF d(1,2)] two_digits_hexPad(2) [OF d(3,4)]
      two_digits_hexPad(2) [OF d(5,6)]
    by simp
  moreover have "validChannel ?r" "validChannel ?g" "validChannel ?b"
    by (rule two_digits_hexPad(1) [OF d(1,2)], rule two_digits_hexPad(1) [OF d(3,4)],
        rule two_digits_hexPad(1) [OF d(5,6)])
  ultimately show ?thesis by blast
qed

section \<open>Saturation and the scan for the most vibrant colour\<close>

lemma validChannel_band_255: "validChannel (band v 255)"
proof -
  have "toInt32 (Some 255) = 255" by (simp add: toInt32_def)
  then have "band v 255 = toInt32 v mod 256" by (simp add: band_def and_255)
  then show ?thesis by (simp add: validChannel_def)
qed

lemma parseChannels_valid:
  assumes "parseChannels hex = (r, g, b)"
  shows "validChannel r" "validChannel g" "validChannel b"
  using assms validChannel_band_255 by (auto simp: parseChannels_def Let_def)

lemma saturation_formula_bounds:
  fixes r g b :: int
  assumes "validChannel r" "validChannel g" "validChannel b"
  defines "mx \<equiv> max (max r g) b" and "mn \<equiv> min (min r g) b"
  shows "0 \<le> (if mx = 0 then 0 else (of_int (mx - mn) / of_int mx :: rat))"
    and "(if mx = 0 then 0 else (of_int (mx - mn) / of_int mx :: rat)) \<le> 1"
proof -
  have a: "0 \<le> mn" "mn \<le> mx" "0 \<le> mx"
    using assms(1-3) by (auto simp: validChannel_def mx_def mn_def)
  show "0 \<le> (if mx = 0 then 0 else (of_int (mx - mn) / of_int mx :: rat))"
    using a by simp
  show "(if mx = 0 then 0 else (of_int (mx - mn) / of_int mx :: rat)) \<le> 1"
  proof (cases "mx = 0")
    case True
    then show ?thesis by simp
  next
    case False
    with a have "0 < mx" by simp
    moreover have "mx - mn \<le> mx" using a by simp
    ultimately show ?thesis using False by (simp add: divide_le_eq_1)
  qed
qed

lemma saturation_bounds: "0 \<le> saturation hex" "saturation hex \<le> 1"
proof -
  obtain r g b where p: "parseChannels hex = (r, g, b)" by (cases "parseChannels hex") auto
  note v = parseChannels_valid [OF p]
  show "0 \<le> saturation hex"
    using saturation_formula_bounds(1) [OF v] by (simp add: saturation_def p Let_def)
  show "saturation hex \<le> 1"
    using saturation_formula_bounds(2) [OF v] by (simp add: saturation_def p Let_def)
qed

lemma saturation_rgbToHex:
  assumes "validChannel r" "validChannel g" "validChannel b"
  shows "saturation (rgbToHex r g b) =
    (if max (max r g) b = 0 then 0
     else of_int (max (max r g) b - min (min r g) b) / of_int (max (max r g) b))"
  by (simp add: saturation_def parseChannels_rgbToHex [OF assms] Let_def)

lemma getLuminance_rgbToHex:
  assumes "validChannel r" "validChannel g" "validChannel b"
  shows "getLuminance (rgbToHex r g b) =
    (299 / 1000 * of_int r + 587 / 1000 * of_int g + 114 / 1000 * of_int b) / 255"
  by (simp add: getLuminance_def parseChannels_rgbToHex [OF assms])

lemma vibrant_scan:
  fixes c0 :: string and xs :: "string list"
  defines "st \<equiv> foldl vibrantStep (0, c0) xs"
  shows "(\<forall>x \<in> set xs. saturation x \<le> fst st) \<and>
    ((fst st = 0 \<and> snd st = c0) \<or>
     (\<exists>i < length xs. snd st = xs ! i \<and> saturation (xs ! i) = fst st \<and>
        (\<forall>j < i. saturation (xs ! j) < fst st)))"
  unfolding st_def
proof (induction xs rule: rev_induct)
  case Nil
  show ?case by simp
next
  case (snoc x xs)
  define s where "s = foldl vibrantStep (0, c0) xs"
  have le: "\<forall>y \<in> set xs. saturation y \<le> fst s"
    and dj: "(fst s = 0 \<and> snd s = c0) \<or>
     (\<exists>i < length xs. snd s = xs ! i \<and> saturation (xs ! i) = fst s \<and>
        (\<forall>j < i. saturation (xs ! j) < fst s))"
    using snoc.IH by (simp_all add: s_def)
  have f: "foldl vibrantStep (0, c0) (xs @ [x]) = vibrantStep s x" by (simp add: s_def)
  show ?case
  proof (cases "saturation x > fst s")
    case True
    then have v: "vibrantStep s x = (saturation x, x)" by (simp add: vibrantStep_def)
    have "\<forall>j < length xs. saturation ((xs @ [x]) ! j) < saturation x"
    proof (intro allI impI)
      fix j assume j: "j < length xs"
      then have "saturation (xs ! j) \<le> fst s" using le by simp
      with True j show "saturation ((xs @ [x]) ! j) < saturation x" by (simp add: nth_append)
    qed
    moreover have "\<forall>y \<in> set (xs @ [x]). saturation y \<le> saturation x"
      using le True by auto
    ultimately show ?thesis
      unfolding f v by (intro conjI disjI2 exI [of _ "length xs"]) simp_all
  next
    case False
    then have v: "vibrantStep s x = s" by (simp add: vibrantStep_def)
    have a: "\<forall>y \<in> set (xs @ [x]). saturation y \<le> fst s" using le False by auto
    from dj show ?thesis
    proof
      assume "fst s = 0 \<and> snd s = c0"
      with a show ?thesis unfolding f v by blast
    next
      assume "\<exists>i < length xs. snd s = xs ! i \<and> saturation (xs ! i) = fst s \<and>
        (\<forall>j < i. saturation (xs ! j) < fst s)"
      then obtain i where i: "i < length xs" "snd s = xs ! i" "saturation (xs ! i) = fst s"
        "\<forall>j < i. saturation (xs ! j) < fst s" by blast
      have "i < length (xs @ [x])" using i(1) by simp
      moreover have "snd s = (xs @ [x]) ! i" using i(1,2) by (simp add: nth_append)
      moreover have "saturation ((xs @ [x]) ! i) = fst s" using i(1,3) by (simp add: nth_append)
      moreover have "\<forall>j < i. saturation ((xs @ [x]) ! j) < fst s"
        using i(1,4) by (simp add: nth_append)
      ultimately show ?thesis using a unfolding f v by blast
    qed
  qed
qed

lemma getMostVibrant_scan:
  assumes "colors \<noteq> []"
  shows "\<exists>i < length colors. getMostVibrant colors = colors ! i \<and>
      (\<forall>j < length colors. saturation (colors ! j) \<le> saturation (colors ! i)) \<and>
      (\<forall>j < i. saturation (colors ! j) < saturation (colors ! i))"
proof -
  define s where "s = foldl vibrantStep (0, colors ! 0) colors"
  have g: "getMostVibrant colors = snd s" by (simp add: getMostVibrant_def s_def)
  have le: "\<forall>x \<in> set colors. saturation x \<le> fst s"
    and dj: "(fst s = 0 \<and> snd s = colors ! 0) \<or>
     (\<exists>i < length colors. snd s = colors ! i \<and> saturation (colors ! i) = fst s \<and>
        (\<forall>j < i. saturation (colors ! j) < fst s))"
    using vibrant_scan [of colors "colors ! 0"] by (simp_all add: s_def)
  from dj show ?thesis
  proof
    assume z: "fst s = 0 \<and> snd s = colors ! 0"
    have "\<forall>j < length colors. saturation (colors ! j) = 0"
    proof (intro allI impI)
      fix j assume "j < length colors"
      then have "saturation (colors ! j) \<le> 0" using le z by simp
      then show "saturation (colors ! j) = 0" using saturation_bounds(1) [of "colors ! j"] by simp
    qed
    then show ?thesis using assms z g by (intro exI [of _ 0]) simp
  next
    assume "\<exists>i < length colors. snd s = colors ! i \<and> saturation (colors ! i) = fst s \<and>
        (\<forall>j < i. saturation (colors ! j) < fst s)"
    then obtain i where i: "i < length colors" "snd s = colors ! i"
      "saturation (colors ! i) = fst s" "\<forall>j < i. saturation (colors ! j) < fst s" by blast
    have "\<forall>j < length colors. saturation (colors ! j) \<le> saturation (colors ! i)"
      using le i(3) by simp
    then show ?thesis using i g by (intro exI [of _ i]) simp
  qed
qed

lemma getMostVibrant_in_set: "colors \<noteq> [] \<Longrightarrow> getMostVibrant colors \<in> set colors"
  using getMostVibrant_scan [of colors] by auto

section \<open>Brightness adjustment of well-formed colours\<close>

lemma mathRound_percent: "mathRound (255 / 100 * of_int percent) = (255 * percent + 50) div 100"
proof -
  have "(255 / 100 * of_int percent + 1 / 2 :: rat) = of_int (255 * percent + 50) / of_int 100"
    by simp
  then show ?thesis
    unfolding mathRound_def by (simp only: floor_divide_of_int_eq)
qed

lemma mathRound_0: "mathRound (255 / 100 * of_int 0) = 0"
  unfolding mathRound_percent by simp

lemma mathRound_m30: "mathRound (255 / 100 * of_int (- 30)) = - 76"
  unfolding mathRound_percent by simp

lemma mathRound_20: "mathRound (255 / 100 * of_int 20) = 51"
  unfolding mathRound_percent by simp

lemma adjustBrightness_isColor:
  assumes "isColor hex"
  shows "\<exists>R G B. validChannel R \<and> validChannel G \<and> validChannel B \<and>
    adjustBrightness hex percent = rgbToHex R G B"
proof -
  from isColor_imp_rgbToHex [OF assms] obtain r g b where
    v: "validChannel r" "validChannel g" "validChannel b" and h: "hex = rgbToHex r g b"
    by blast
  show ?thesis
    unfolding h adjustBrightness_rgbToHex [OF v] Let_def
    using validChannel_clamp by blast
qed

lemma adjustBrightness_zero:
  assumes "isColor hex"
  shows "adjustBrightness hex 0 = hex"
proof -
  from isColor_imp_rgbToHex [OF assms] obtain r g b where
    v: "validChannel r" "validChannel g" "validChannel b" and h: "hex = rgbToHex r g b"
    by blast
  have "min 255 (max 0 r) = r" "min 255 (max 0 g) = g" "min 255 (max 0 b) = b"
    using v by (auto simp: validChannel_def)
  then show ?thesis
    unfolding h adjustBrightness_rgbToHex [OF v] Let_def mathRound_0 by simp
qed

lemma rgbToHex_256: "rgbToHex 256 0 0 = ''#1000000''"
  by (simp add: rgbToHex_def hexPad_def toString16_def toDigits16.simps hexDigit_def
      char_of_eq_iff_nat)

lemma rgbToHex_samples:
  "rgbToHex 32 32 32 = ''#202020''" "rgbToHex 160 160 160 = ''#a0a0a0''"
  "rgbToHex 255 0 0 = ''#ff0000''" "rgbToHex 0 255 170 = ''#00ffaa''"
  "rgbToHex 0 0 0 = ''#000000''" "rgbToHex 128 128 128 = ''#808080''"
  "rgbToHex 26 43 60 = ''#1a2b3c''"
  by (simp_all add: rgbToHex_def hexPad_def toString16_def toDigits16.simps hexDigit_def
      char_of_eq_iff_nat)

lemma validChannel_numeral [simp]:
  "validChannel 0" "validChannel 255" "validChannel 32" "validChannel 160" "validChannel 170"
  "validChannel 128" "validChannel 26" "validChannel 43" "validChannel 60"
  by (simp_all add: validChannel_def)

lemma isColor_samples:
  "isColor ''#1a2b3c''" "isColor ''#202020''"
  by (simp_all add: isColor_def)

section \<open>The derivation on at least three samples\<close>

lemma length_hexColorsOf: "length (hexColorsOf pal) = length pal"
  by (simp add: hexColorsOf_def)

lemma hexColorsOf_nth:
  "i < length pal \<Longrightarrow> hexColorsOf pal ! i = (case pal ! i of (r, g, b) \<Rightarrow> rgbToHex r g b)"
  by (simp add: hexColorsOf_def)

lemma rgbToHex_not_empty: "rgbToHex r g b \<noteq> []"
  by (simp add: rgbToHex_def)

lemma hexColorsOf_isColor:
  assumes "\<forall>s \<in> set pal. validSample s" and "h \<in> set (hexColorsOf pal)"
  shows "isColor h"
proof -
  from assms(2) obtain r g b where "(r, g, b) \<in> set pal" and h: "h = rgbToHex r g b"
    by (auto simp: hexColorsOf_def)
  with assms(1) have "validChannel r" "validChannel g" "validChannel b"
    by (auto simp: validSample_def)
  then show ?thesis unfolding h by (rule isColor_rgbToHex)
qed

lemma no_secondaryFallback:
  assumes "2 \<le> length pal"
  shows "\<not> secondaryFallback (hexColorsOf pal)"
proof -
  have "1 < length pal" using assms by simp
  moreover from this have "hexColorsOf pal ! 1 \<noteq> []"
    by (simp add: hexColorsOf_nth rgbToHex_not_empty split: prod.split)
  ultimately show ?thesis by (simp add: secondaryFallback_def length_hexColorsOf)
qed

lemma derive_Some:
  assumes "3 \<le> length pal"
  shows "derive (Some pal) =
    Inr \<lparr>primary = hexColorsOf pal ! 0,
         secondary = secondaryOf (hexColorsOf pal) (hexColorsOf pal ! 0),
         accent = getMostVibrant (hexColorsOf pal),
         dark = adjustBrightness (sort_key getLuminance (hexColorsOf pal) ! 0) (- 30),
         light = sort_key getLuminance (hexColorsOf pal) ! (length pal - 1)\<rparr>"
  using assms by (simp add: derive_def Let_def length_hexColorsOf)

lemma derive_short: "length pal < 3 \<Longrightarrow> derive (Some pal) = Inl NotEnoughColors"
  by (simp add: derive_def)

lemma derive_roles_isColor:
  assumes len: "3 \<le> length pal" and v: "\<forall>s \<in> set pal. validSample s"
  defines "hexColors \<equiv> hexColorsOf pal"
  shows "isColor (hexColors ! 0)"
    and "isColor (secondaryOf hexColors (hexColors ! 0))"
    and "isColor (getMostVibrant hexColors)"
    and "isColor (adjustBrightness (sort_key getLuminance hexColors ! 0) (- 30))"
    and "isColor (sort_key getLuminance hexColors ! (length pal - 1))"
proof -
  have n: "length hexColors = length pal" by (simp add: hexColors_def length_hexColorsOf)
  have c: "\<And>h. h \<in> set hexColors \<Longrightarrow> isColor h"
    using hexColorsOf_isColor [OF v] by (simp add: hexColors_def)
  have ne: "hexColors \<noteq> []" using len n by (cases hexColors) auto
  show "isColor (hexColors ! 0)" using len n by (intro c nth_mem) linarith
  have "\<not> secondaryFallback hexColors"
    unfolding hexColors_def using len by (intro no_secondaryFallback) simp
  then have "secondaryOf hexColors (hexColors ! 0) = hexColors ! 1" by (simp add: secondaryOf_def)
  moreover have "isColor (hexColors ! 1)" using len n by (intro c nth_mem) linarith
  ultimately show "isColor (secondaryOf hexColors (hexColors ! 0))" by simp
  show "isColor (getMostVibrant hexColors)" using ne by (intro c getMostVibrant_in_set)
  have s: "\<And>i. i < length pal \<Longrightarrow> isColor (sort_key getLuminance hexColors ! i)"
  proof -
    fix i assume "i < length pal"
    then have "sort_key getLuminance hexColors ! i \<in> set (sort_key getLuminance hexColors)"
      using n by (intro nth_mem) (simp only: length_sort)
    then show "isColor (sort_key getLuminance hexColors ! i)" using c by simp
  qed
  have "isColor (sort_key getLuminance hexColors ! 0)" using len by (intro s) linarith
  from adjustBrightness_isColor [OF this, of "- 30"]
  show "isColor (adjustBrightness (sort_key getLuminance hexColors ! 0) (- 30))"
    using isColor_rgbToHex by auto
  show "isColor (sort_key getLuminance hexColors ! (length pal - 1))" using len by (intro s) linarith
qed

section \<open>The scenario of the specification\<close>

lemma scenario_hexColors:
  "hexColorsOf [(32, 32, 32), (160, 160, 160), (255, 0, 0), (0, 255, 170)] =
   [rgbToHex 32 32 32, rgbToHex 160 160 160, rgbToHex 255 0 0, rgbToHex 0 255 170]"
  by (simp add: hexColorsOf_def)

lemma scenario_sorted:
  "sort_key getLuminance
     [rgbToHex 32 32 32, rgbToHex 160 160 160, rgbToHex 255 0 0, rgbToHex 0 255 170] =
   [rgbToHex 32 32 32, rgbToHex 255 0 0, rgbToHex 160 160 160, rgbToHex 0 255 170]"
  by (simp add: getLuminance_rgbToHex)

lemma scenario_vibrant:
  "getMostVibrant
     [rgbToHex 32 32 32, rgbToHex 160 160 160, rgbToHex 255 0 0, rgbToHex 0 255 170] =
   rgbToHex 255 0 0"
  by (simp add: getMostVibrant_def vibrantStep_def saturation_rgbToHex)

lemma adjustBrightness_rgbToHex_div:
  assumes "validChannel r" "validChannel g" "validChannel b"
  shows "adjustBrightness (rgbToHex r g b) percent =
    rgbToHex (min 255 (max 0 (r + (255 * percent + 50) div 100)))
      (min 255 (max 0 (g + (255 * percent + 50) div 100)))
      (min 255 (max 0 (b + (255 * percent + 50) div 100)))"
  unfolding adjustBrightness_rgbToHex [OF assms] mathRound_percent Let_def ..

lemma scenario_dark: "adjustBrightness (rgbToHex 32 32 32) (- 30) = rgbToHex 0 0 0"
  by (simp add: adjustBrightness_rgbToHex_div)

lemma scenario_secondary:
  "secondaryOf [rgbToHex 32 32 32, rgbToHex 160 160 160, rgbToHex 255 0 0, rgbToHex 0 255 170]
      (rgbToHex 32 32 32) = rgbToHex 160 160 160"
  by (simp add: secondaryOf_def secondaryFallback_def rgbToHex_not_empty)

lemma scenario_derive:
  "derive (Some [(32, 32, 32), (160, 160, 160), (255, 0, 0), (0, 255, 170)]) =
   Inr \<lparr>primary = ''#202020'', secondary = ''#a0a0a0'', accent = ''#ff0000'',
        dark = ''#000000'', light = ''#00ffaa''\<rparr>"
proof -
  have len: "3 \<le> length [(32, 32, 32), (160, 160, 160), (255, 0, 0), (0, 255, 170 :: int)]"
    by simp
  have nths:
    "[rgbToHex 32 32 32, rgbToHex 160 160 160, rgbToHex 255 0 0, rgbToHex 0 255 170] ! 0
      = rgbToHex 32 32 32"
    "[rgbToHex 32 32 32, rgbToHex 255 0 0, rgbToHex 160 160 160, rgbToHex 0 255 170] ! 0
      = rgbToHex 32 32 32"
    "[rgbToHex 32 32 32, rgbToHex 255 0 0, rgbToHex 160 160 160, rgbToHex 0 255 170] !
      (length [(32, 32, 32), (160, 160, 160), (255, 0, 0), (0, 255, 170 :: int)] - 1)
      = rgbToHex 0 255 170"
    by simp_all
  have "derive (Some [(32, 32, 32), (160, 160, 160), (255, 0, 0), (0, 255, 170)]) =
    Inr \<lparr>primary = rgbToHex 32 32 32, secondary = rgbToHex 160 160 160,
         accent = rgbToHex 255 0 0, dark = rgbToHex 0 0 0, light = rgbToHex 0 255 170\<rparr>"
    by (simp only: derive_Some [OF len] scenario_hexColors scenario_sorted nths
        scenario_secondary scenario_vibrant scenario_dark)
  then show ?thesis by (simp only: rgbToHex_samples)
qed

lemma derive_Inr_length: "derive (Some pal) = Inr p \<Longrightarrow> 3 \<le> length pal"
  by (cases "length pal < 3") (simp_all add: derive_short)

lemma vibrant_tie:
  "getMostVibrant [''#a0a0a0'', ''#ff0000'', ''#00ffaa''] = ''#ff0000''"
proof -
  have "getMostVibrant [rgbToHex 160 160 160, rgbToHex 255 0 0, rgbToHex 0 255 170]
      = rgbToHex 255 0 0"
    by (simp add: getMostVibrant_def vibrantStep_def saturation_rgbToHex)
  then show ?thesis by (simp only: rgbToHex_samples)
qed

lemma scenario_sorted_strings:
  "sort_key getLuminance [''#202020'', ''#a0a0a0'', ''#ff0000'', ''#00ffaa''] =
   [''#202020'', ''#ff0000'', ''#a0a0a0'', ''#00ffaa'']"
  using scenario_sorted by (simp only: rgbToHex_samples)

lemma scenario_luminance:
  "getLuminance ''#a0a0a0'' = 32 / 51" "getLuminance ''#00ffaa'' = 663 / 1000"
proof -
  have "getLuminance (rgbToHex 160 160 160) = 32 / 51" by (simp add: getLuminance_rgbToHex)
  then show "getLuminance ''#a0a0a0'' = 32 / 51" by (simp only: rgbToHex_samples)
  have "getLuminance (rgbToHex 0 255 170) = 663 / 1000" by (simp add: getLuminance_rgbToHex)
  then show "getLuminance ''#00ffaa'' = 663 / 1000" by (simp only: rgbToHex_samples)
qed

lemma darken_far_below:
  "adjustBrightness ''#202020'' (- 1000) = ''#000000''"
proof -
  have "adjustBrightness (rgbToHex 32 32 32) (- 1000) = rgbToHex 0 0 0"
    by (simp add: adjustBrightness_rgbToHex_div)
  then show ?thesis by (simp only: rgbToHex_samples)
qed

section \<open>The claims of the specification\<close>

text \<open>
  Claim C1, as the code has it. \<open>rgbToHex\<close> does not clamp: it writes each channel with
  \<^verbatim>\<open>toString(16)\<close> and pads a single digit. For channels that already lie in \<open>0..255\<close>
  the result is \<^verbatim>\<open>#\<close> followed by the two lowercase hex digits of each channel in order,
  seven characters in all, and a well-formed colour.
\<close>

theorem rgbToHex_in_range:
  assumes "validChannel r" and "validChannel g" and "validChannel b"
  shows "rgbToHex r g b =
      [CHR ''#'', hexDigit (nat r div 16), hexDigit (nat r mod 16),
       hexDigit (nat g div 16), hexDigit (nat g mod 16),
       hexDigit (nat b div 16), hexDigit (nat b mod 16)]
    \<and> length (rgbToHex r g b) = 7 \<and> isColor (rgbToHex r g b)"
proof -
  have "length (rgbToHex r g b) = 7" by (simp add: rgbToHex_valid [OF assms])
  then show ?thesis using rgbToHex_valid [OF assms] isColor_rgbToHex [OF assms] by blast
qed

theorem rgbToHex_in_range_witness:
  "validChannel 26 \<and> validChannel 43 \<and> validChannel 60 \<and>
   rgbToHex 26 43 60 = ''#1a2b3c'' \<and> length (rgbToHex 26 43 60) = 7 \<and> isColor (rgbToHex 26 43 60)"
  using rgbToHex_in_range [of 26 43 60]
  by (simp add: rgbToHex_samples isColor_def)

text \<open>
  Claim C1 as stated fails outside that range: the channel 256 is not clamped to 255 but
  written as the three digits \<^verbatim>\<open>100\<close>, and the result has eight characters.
\<close>

theorem rgbToHex_no_clamp_counterexample:
  "rgbToHex 256 0 0 = ''#1000000'' \<and> length (rgbToHex 256 0 0) \<noteq> 7"
  by (simp add: rgbToHex_256)

text \<open>
  Claim C2, as the code has it. On the samples \<^verbatim>\<open>#202020\<close>, \<^verbatim>\<open>#a0a0a0\<close>, \<^verbatim>\<open>#ff0000\<close>,
  \<^verbatim>\<open>#00ffaa\<close> the derivation returns primary \<^verbatim>\<open>#202020\<close>, secondary \<^verbatim>\<open>#a0a0a0\<close>, accent
  \<^verbatim>\<open>#ff0000\<close> and dark \<^verbatim>\<open>#000000\<close>. The luminance of \<^verbatim>\<open>#00ffaa\<close> is 0.663, above the
  0.627 of \<^verbatim>\<open>#a0a0a0\<close>, so the ascending ranking is \<^verbatim>\<open>#202020\<close>, \<^verbatim>\<open>#ff0000\<close>, \<^verbatim>\<open>#a0a0a0\<close>,
  \<^verbatim>\<open>#00ffaa\<close> and light is \<^verbatim>\<open>#00ffaa\<close>.
\<close>

theorem scenario_palette:
  "derive (Some [(32, 32, 32), (160, 160, 160), (255, 0, 0), (0, 255, 170)]) =
     Inr \<lparr>primary = ''#202020'', secondary = ''#a0a0a0'', accent = ''#ff0000'',
          dark = ''#000000'', light = ''#00ffaa''\<rparr>
   \<and> sort_key getLuminance [''#202020'', ''#a0a0a0'', ''#ff0000'', ''#00ffaa''] =
     [''#202020'', ''#ff0000'', ''#a0a0a0'', ''#00ffaa'']
   \<and> getLuminance ''#a0a0a0'' < getLuminance ''#00ffaa''"
proof -
  have l: "getLuminance ''#a0a0a0'' < getLuminance ''#00ffaa''"
    unfolding scenario_luminance by simp
  show ?thesis
    by (intro conjI) (rule scenario_derive, rule scenario_sorted_strings, rule l)
qed

text \<open>
  Claim C2 as stated fails: the derivation does not return light \<^verbatim>\<open>#a0a0a0\<close>, and the
  luminance-sorted copy is not the ranking the claim gives.
\<close>

theorem scenario_light_counterexample:
  "derive (Some [(32, 32, 32), (160, 160, 160), (255, 0, 0), (0, 255, 170)]) \<noteq>
     Inr \<lparr>primary = ''#202020'', secondary = ''#a0a0a0'', accent = ''#ff0000'',
          dark = ''#000000'', light = ''#a0a0a0''\<rparr>
   \<and> sort_key getLuminance [''#202020'', ''#a0a0a0'', ''#ff0000'', ''#00ffaa''] \<noteq>
     [''#202020'', ''#ff0000'', ''#00ffaa'', ''#a0a0a0'']"
  unfolding scenario_derive scenario_sorted_strings by simp

text \<open>
  Claim C3. On the sampler's list the derivation is rejected with the not-enough-colours
  error exactly when the list has fewer than three entries; it is rejected with any error
  exactly then; and a rejected derivation returns no palette at all. A \<^verbatim>\<open>null\<close> palette
  is rejected the same way.
\<close>

theorem insufficient_samples:
  "(derive (Some pal) = Inl NotEnoughColors \<longleftrightarrow> length pal < 3) \<and>
   (extractColors (Loaded (Some pal)) = Inl NotEnoughColors \<longleftrightarrow> length pal < 3) \<and>
   ((\<exists>e. derive (Some pal) = Inl e) \<longleftrightarrow> length pal < 3) \<and>
   (length pal < 3 \<longrightarrow> (\<forall>p. derive (Some pal) \<noteq> Inr p)) \<and>
   derive None = Inl NotEnoughColors"
proof (cases "length pal < 3")
  case True
  then show ?thesis by (simp add: derive_short extractColors_def) (simp add: derive_def)
next
  case False
  then have "3 \<le> length pal" by simp
  from derive_Some [OF this] False show ?thesis by (simp add: derive_def extractColors_def)
qed

theorem insufficient_samples_witness:
  "length [(32, 32, 32), (160, 160, 160 :: int)] < 3 \<and>
   derive (Some [(32, 32, 32), (160, 160, 160)]) = Inl NotEnoughColors \<and>
   extractColors (Loaded (Some [(32, 32, 32), (160, 160, 160)])) = Inl NotEnoughColors \<and>
   (\<forall>p. derive (Some [(32, 32, 32), (160, 160, 160)]) \<noteq> Inr p)"
  using insufficient_samples [of "[(32, 32, 32), (160, 160, 160)]"] by simp

text \<open>
  Claim C4. On a non-empty list of colours, \<open>getMostVibrant\<close> returns the element at the
  first index whose saturation is maximal: no element has a higher saturation and every
  earlier element has a strictly lower one. The accent of a derived palette is
  \<open>getMostVibrant\<close> of the samples in dominance order.
\<close>

theorem accent_first_most_saturated:
  assumes "colors \<noteq> []"
  shows "(\<exists>i < length colors. getMostVibrant colors = colors ! i \<and>
      (\<forall>j < length colors. saturation (colors ! j) \<le> saturation (colors ! i)) \<and>
      (\<forall>j < i. saturation (colors ! j) < saturation (colors ! i))) \<and>
    (\<forall>pal p. derive (Some pal) = Inr p \<longrightarrow> accent p = getMostVibrant (hexColorsOf pal))"
proof -
  have "accent p = getMostVibrant (hexColorsOf pal)" if "derive (Some pal) = Inr p" for pal p
    using that derive_Some [OF derive_Inr_length [OF that]] by auto
  then show ?thesis using getMostVibrant_scan [OF assms] by blast
qed

theorem accent_first_most_saturated_witness:
  "[''#a0a0a0'', ''#ff0000'', ''#00ffaa''] \<noteq> [] \<and>
   getMostVibrant [''#a0a0a0'', ''#ff0000'', ''#00ffaa''] = ''#ff0000'' \<and>
   (\<exists>i < length [''#a0a0a0'', ''#ff0000'', ''#00ffaa''].
      getMostVibrant [''#a0a0a0'', ''#ff0000'', ''#00ffaa''] =
        [''#a0a0a0'', ''#ff0000'', ''#00ffaa''] ! i \<and>
      (\<forall>j < length [''#a0a0a0'', ''#ff0000'', ''#00ffaa''].
         saturation ([''#a0a0a0'', ''#ff0000'', ''#00ffaa''] ! j) \<le>
           saturation ([''#a0a0a0'', ''#ff0000'', ''#00ffaa''] ! i)) \<and>
      (\<forall>j < i. saturation ([''#a0a0a0'', ''#ff0000'', ''#00ffaa''] ! j) <
           saturation ([''#a0a0a0'', ''#ff0000'', ''#00ffaa''] ! i)))"
proof -
  have ne: "[''#a0a0a0'', ''#ff0000'', ''#00ffaa''] \<noteq> []" by simp
  from accent_first_most_saturated [OF ne] vibrant_tie ne show ?thesis by blast
qed

text \<open>
  Claim C5. On at least three samples with channels in \<open>0..255\<close> the derivation resolves
  with a palette whose five roles are all well-formed seven-character hex colours.
\<close>

theorem total_coverage:
  assumes "3 \<le> length pal" and "\<forall>s \<in> set pal. validSample s"
  shows "\<exists>p. derive (Some pal) = Inr p \<and> isColor (primary p) \<and> isColor (secondary p) \<and>
    isColor (accent p) \<and> isColor (dark p) \<and> isColor (light p)"
  unfolding derive_Some [OF assms(1)]
  using derive_roles_isColor [OF assms] by simp

theorem total_coverage_witness:
  "3 \<le> length [(32, 32, 32), (160, 160, 160), (255, 0, 0), (0, 255, 170 :: int)] \<and>
   list_all validSample [(32, 32, 32), (160, 160, 160), (255, 0, 0), (0, 255, 170)] \<and>
   (\<exists>p. derive (Some [(32, 32, 32), (160, 160, 160), (255, 0, 0), (0, 255, 170)]) = Inr p \<and>
      isColor (primary p) \<and> isColor (secondary p) \<and> isColor (accent p) \<and>
      isColor (dark p) \<and> isColor (light p))"
proof -
  have len: "3 \<le> length [(32, 32, 32), (160, 160, 160), (255, 0, 0), (0, 255, 170 :: int)]"
    by simp
  have v: "\<forall>s \<in> set [(32, 32, 32), (160, 160, 160), (255, 0, 0), (0, 255, 170)]. validSample s"
    by (simp add: validSample_def)
  then have "list_all validSample [(32, 32, 32), (160, 160, 160), (255, 0, 0), (0, 255, 170)]"
    by (simp only: list_all_iff)
  with total_coverage [OF len v] len show ?thesis by blast
qed

text \<open>
  Claim C6. For channels in \<open>0..255\<close>, encoding with \<open>rgbToHex\<close> and reading the channels
  back the way \<^verbatim>\<open>getLuminance\<close> does (\<^verbatim>\<open>parseInt\<close> of the string without \<^verbatim>\<open>#\<close>, then
  shifts and masks) gives the original triple.
\<close>

theorem toHex_parse_roundtrip:
  assumes "validChannel r" and "validChannel g" and "validChannel b"
  shows "parseChannels (rgbToHex r g b) = (r, g, b)"
  using assms by (rule parseChannels_rgbToHex)

theorem toHex_parse_roundtrip_witness:
  "validChannel 26 \<and> validChannel 43 \<and> validChannel 60 \<and>
   rgbToHex 26 43 60 = ''#1a2b3c'' \<and> parseChannels ''#1a2b3c'' = (26, 43, 60)"
  using toHex_parse_roundtrip [of 26 43 60] by (simp add: rgbToHex_samples)

text \<open>
  Claim C7. On a canonical colour (\<^verbatim>\<open>#\<close> and six lowercase hex digits),
  \<open>adjustBrightness\<close> with percent 0 returns the colour unchanged.
\<close>

theorem adjustBrightness_zero_identity:
  assumes "isColor color"
  shows "adjustBrightness color 0 = color"
  using assms by (rule adjustBrightness_zero)

theorem adjustBrightness_zero_identity_witness:
  "isColor ''#1a2b3c'' \<and> adjustBrightness ''#1a2b3c'' 0 = ''#1a2b3c''"
  using adjustBrightness_zero_identity [of "''#1a2b3c''"] by (simp add: isColor_def)

text \<open>
  Claim C8. The saturation the scan computes lies between 0 and 1 for every string; on the
  hex form of in-range channels it is \<open>(max - min) / max\<close>, and 0 when \<open>max\<close> is 0;
  it is 0 for \<^verbatim>\<open>#808080\<close> and 1 for \<^verbatim>\<open>#ff0000\<close>.
\<close>

theorem saturation_in_unit_interval:
  "0 \<le> saturation color \<and> saturation color \<le> 1 \<and>
   (validChannel r \<and> validChannel g \<and> validChannel b \<longrightarrow>
      saturation (rgbToHex r g b) =
        (if max (max r g) b = 0 then 0
         else of_int (max (max r g) b - min (min r g) b) / of_int (max (max r g) b))) \<and>
   saturation ''#808080'' = 0 \<and> saturation ''#ff0000'' = 1"
proof -
  have "saturation (rgbToHex 128 128 128) = 0" by (simp add: saturation_rgbToHex)
  moreover have "saturation (rgbToHex 255 0 0) = 1" by (simp add: saturation_rgbToHex)
  ultimately show ?thesis
    using saturation_bounds [of color] saturation_rgbToHex [of r g b]
    by (simp add: rgbToHex_samples)
qed

theorem saturation_in_unit_interval_witness:
  "validChannel 0 \<and> validChannel 255 \<and> validChannel 170 \<and>
   rgbToHex 0 255 170 = ''#00ffaa'' \<and> saturation ''#00ffaa'' = 1 \<and>
   0 \<le> saturation ''#a0a0a0'' \<and> saturation ''#a0a0a0'' \<le> 1"
  using saturation_in_unit_interval [of "''#a0a0a0''" 0 255 170]
  by (simp add: rgbToHex_samples)

text \<open>
  Claim C9. On at least two samples the fallback of \<^verbatim>\<open>||\<close> is not taken: the secondary
  colour is the hex form of the second sample, also in every derived palette.
\<close>

theorem secondary_is_second_sample:
  assumes "2 \<le> length pal"
  shows "\<not> secondaryFallback (hexColorsOf pal) \<and>
    secondaryOf (hexColorsOf pal) (hexColorsOf pal ! 0) = hexColorsOf pal ! 1 \<and>
    hexColorsOf pal ! 1 = (case pal ! 1 of (r, g, b) \<Rightarrow> rgbToHex r g b) \<and>
    (\<forall>p. derive (Some pal) = Inr p \<longrightarrow> secondary p = hexColorsOf pal ! 1)"
proof -
  note nf = no_secondaryFallback [OF assms]
  then have s: "secondaryOf (hexColorsOf pal) (hexColorsOf pal ! 0) = hexColorsOf pal ! 1"
    by (simp add: secondaryOf_def)
  have "1 < length pal" using assms by simp
  then have n: "hexColorsOf pal ! 1 = (case pal ! 1 of (r, g, b) \<Rightarrow> rgbToHex r g b)"
    by (rule hexColorsOf_nth)
  have "secondary p = hexColorsOf pal ! 1" if "derive (Some pal) = Inr p" for p
    using that derive_Some [OF derive_Inr_length [OF that]] s by auto
  with nf s n show ?thesis by blast
qed

theorem secondary_is_second_sample_witness:
  "2 \<le> length [(32, 32, 32), (160, 160, 160), (255, 0, 0 :: int)] \<and>
   \<not> secondaryFallback (hexColorsOf [(32, 32, 32), (160, 160, 160), (255, 0, 0)]) \<and>
   hexColorsOf [(32, 32, 32), (160, 160, 160), (255, 0, 0)] ! 1 = ''#a0a0a0'' \<and>
   secondaryOf (hexColorsOf [(32, 32, 32), (160, 160, 160), (255, 0, 0)])
     (hexColorsOf [(32, 32, 32), (160, 160, 160), (255, 0, 0)] ! 0) = ''#a0a0a0''"
  using secondary_is_second_sample [of "[(32, 32, 32), (160, 160, 160), (255, 0, 0)]"]
  by (simp add: rgbToHex_samples)

text \<open>
  Claim C10. On a canonical colour and any integer percent, \<open>adjustBrightness\<close> returns a
  canonical colour, the hex form of three channels in \<open>0..255\<close>; hence the dark role of a
  palette derived from in-range samples is well-formed, although \<open>rgbToHex\<close> alone does
  not produce a well-formed colour from the channel 256.
\<close>

theorem adjustBrightness_well_formed:
  assumes "isColor hex"
  shows "isColor (adjustBrightness hex percent) \<and>
    (\<exists>R G B. validChannel R \<and> validChannel G \<and> validChannel B \<and>
       adjustBrightness hex percent = rgbToHex R G B) \<and>
    (\<forall>pal p. (\<forall>s \<in> set pal. validSample s) \<and> derive (Some pal) = Inr p \<longrightarrow> isColor (dark p)) \<and>
    \<not> isColor (rgbToHex 256 0 0)"
proof -
  note a = adjustBrightness_isColor [OF assms, of percent]
  then have c: "isColor (adjustBrightness hex percent)" using isColor_rgbToHex by auto
  have d: "isColor (dark p)" if "\<forall>s \<in> set pal. validSample s" "derive (Some pal) = Inr p" for pal p
  proof -
    note len = derive_Inr_length [OF that(2)]
    from that(2) derive_Some [OF len] derive_roles_isColor(4) [OF len that(1)]
    show ?thesis by auto
  qed
  have "\<not> isColor (rgbToHex 256 0 0)" by (simp add: rgbToHex_256 isColor_def)
  with a c d show ?thesis by blast
qed

theorem adjustBrightness_well_formed_witness:
  "isColor ''#202020'' \<and> adjustBrightness ''#202020'' (- 1000) = ''#000000'' \<and>
   isColor (adjustBrightness ''#202020'' (- 1000))"
  using adjustBrightness_well_formed [of "''#202020''" "- 1000"]
  by (simp add: isColor_samples darken_far_below)

end
